theory Spec2Isabelle
  imports Main "HOL-Library.Char_ord" "HOL-Library.List_Lexorder"
begin

section \<open>The regular-expression library used by the script\<close>

text \<open>
  \<^verbatim>\<open>scripts/fix-any-types.py\<close> drives everything through Python's \<^verbatim>\<open>re\<close>
  module: \<^verbatim>\<open>re.search(pattern, text)\<close> and \<^verbatim>\<open>re.sub(pattern, repl, text)\<close>,
  each of which compiles the pattern string first and raises \<^verbatim>\<open>re.error\<close> when the
  string is not a regular expression. The patterns are kept here as the strings of the
  source, and the library is modelled by a parser and a backtracking matcher for the
  syntax those strings use: literal characters, \<^verbatim>\<open>.\<close>, the escapes
  \<^verbatim>\<open>\s \w \d \b\<close> and escaped punctuation, character sets \<^verbatim>\<open>[...]\<close>, the
  repeats \<^verbatim>\<open>* + ?\<close> with their lazy forms on a single-character item, capturing
  groups, the lookahead \<^verbatim>\<open>(?=...)\<close>, and the anchors \<^verbatim>\<open>^ $\<close>.
  A pattern that uses anything else is answered with \<open>Unsupported\<close>: that is the edge of
  the model, not something Python would raise.

  A Python \<^verbatim>\<open>str\<close> is a sequence of code points. A \<^typ>\<open>char\<close> stands for a code
  point below 256, so the theorems below speak about text in that range.
\<close>

subsection \<open>Character classes\<close>

definition code :: "char \<Rightarrow> nat" where
  "code c = of_char c"

text \<open>\<^verbatim>\<open>\w\<close> on a \<^verbatim>\<open>str\<close> pattern: alphanumeric in the Unicode database, or
  the underscore.\<close>

definition is_word :: "char \<Rightarrow> bool" where
  "is_word c = (let n = code c in
     (48 \<le> n \<and> n \<le> 57) \<or> (65 \<le> n \<and> n \<le> 90) \<or> n = 95 \<or> (97 \<le> n \<and> n \<le> 122) \<or>
     n = 170 \<or> n = 178 \<or> n = 179 \<or> n = 181 \<or> n = 185 \<or> n = 186 \<or>
     (188 \<le> n \<and> n \<le> 190) \<or> (192 \<le> n \<and> n \<le> 214) \<or> (216 \<le> n \<and> n \<le> 246) \<or>
     248 \<le> n)"

text \<open>\<^verbatim>\<open>\s\<close> on a \<^verbatim>\<open>str\<close> pattern: Unicode whitespace.\<close>

definition is_space :: "char \<Rightarrow> bool" where
  "is_space c = (let n = code c in
     (9 \<le> n \<and> n \<le> 13) \<or> (28 \<le> n \<and> n \<le> 32) \<or> n = 133 \<or> n = 160)"

definition is_digit :: "char \<Rightarrow> bool" where
  "is_digit c = (let n = code c in 48 \<le> n \<and> n \<le> 57)"

definition is_alnum_ascii :: "char \<Rightarrow> bool" where
  "is_alnum_ascii c = (let n = code c in
     (48 \<le> n \<and> n \<le> 57) \<or> (65 \<le> n \<and> n \<le> 90) \<or> (97 \<le> n \<and> n \<le> 122))"

datatype citem = CLit char | CSpace | CWord | CDigit

fun citem_ok :: "citem \<Rightarrow> char \<Rightarrow> bool" where
  "citem_ok (CLit d) c = (c = d)"
| "citem_ok CSpace c = is_space c"
| "citem_ok CWord c = is_word c"
| "citem_ok CDigit c = is_digit c"

text \<open>One item of a pattern that consumes exactly one character. \<^verbatim>\<open>.\<close> matches
  everything but the newline (no flag is ever passed by the script).\<close>

datatype atom = Lit char | Dot | Cls bool "citem list"

fun atom_ok :: "atom \<Rightarrow> char \<Rightarrow> bool" where
  "atom_ok (Lit d) c = (c = d)"
| "atom_ok Dot c = (c \<noteq> CHR 0x0A)"
| "atom_ok (Cls neg items) c = (list_ex (\<lambda>i. citem_ok i c) items \<noteq> neg)"

subsection \<open>Compiled patterns and the matcher\<close>

text \<open>
  A compiled pattern is a sequence of instructions. \<open>Rep a g\<close> is zero or more of \<open>a\<close>,
  greedy when \<open>g\<close>; \<open>Opt a g\<close> is zero or one. A capturing group number \<open>n\<close> is
  bracketed by \<open>Open n\<close> and \<open>Close n\<close>.
\<close>

datatype instr =
    Atom atom
  | Rep atom bool
  | Opt atom bool
  | Open nat
  | Close nat
  | Look "instr list"
  | WordB
  | Bol
  | Eol

type_synonym caps = "(nat \<times> string) list"

definition word_before :: "char option \<Rightarrow> bool" where
  "word_before p = (case p of None \<Rightarrow> False | Some c \<Rightarrow> is_word c)"

definition word_after :: "string \<Rightarrow> bool" where
  "word_after s = (case s of [] \<Rightarrow> False | c # _ \<Rightarrow> is_word c)"

definition group_text :: "(nat \<times> string) list \<Rightarrow> nat \<Rightarrow> string \<Rightarrow> string" where
  "group_text os n s =
     (case map_of os n of None \<Rightarrow> [] | Some s0 \<Rightarrow> take (length s0 - length s) s0)"

text \<open>
  \<open>mt prog bar p s os cs\<close> runs \<open>prog\<close> on the text \<open>s\<close> that follows the character
  \<open>p\<close> (if any). It answers as the backtracking engine does, with the first success in
  its order of preference: the text left after the match, and the groups captured.
  \<open>bar = Some k\<close> forbids a match that ends with \<open>k\<close> characters left; \<^verbatim>\<open>re.sub\<close>
  uses it after an empty match, to ask for a match that advances.
\<close>

fun mt :: "instr list \<Rightarrow> nat option \<Rightarrow> char option \<Rightarrow> string \<Rightarrow> (nat \<times> string) list \<Rightarrow> caps
    \<Rightarrow> (string \<times> caps) option" where
  "mt [] bar p s os cs = (if bar = Some (length s) then None else Some (s, cs))"
| "mt (Atom a # is) bar p [] os cs = None"
| "mt (Atom a # is) bar p (c # s) os cs =
     (if atom_ok a c then mt is bar (Some c) s os cs else None)"
| "mt (Rep a True # is) bar p [] os cs = mt is bar p [] os cs"
| "mt (Rep a True # is) bar p (c # s) os cs =
     (if atom_ok a c
      then (case mt (Rep a True # is) bar (Some c) s os cs of
              Some r \<Rightarrow> Some r
            | None \<Rightarrow> mt is bar p (c # s) os cs)
      else mt is bar p (c # s) os cs)"
| "mt (Rep a False # is) bar p [] os cs = mt is bar p [] os cs"
| "mt (Rep a False # is) bar p (c # s) os cs =
     (case mt is bar p (c # s) os cs of
        Some r \<Rightarrow> Some r
      | None \<Rightarrow> (if atom_ok a c then mt (Rep a False # is) bar (Some c) s os cs else None))"
| "mt (Opt a g # is) bar p [] os cs = mt is bar p [] os cs"
| "mt (Opt a True # is) bar p (c # s) os cs =
     (if atom_ok a c
      then (case mt is bar (Some c) s os cs of
              Some r \<Rightarrow> Some r
            | None \<Rightarrow> mt is bar p (c # s) os cs)
      else mt is bar p (c # s) os cs)"
| "mt (Opt a False # is) bar p (c # s) os cs =
     (case mt is bar p (c # s) os cs of
        Some r \<Rightarrow> Some r
      | None \<Rightarrow> (if atom_ok a c then mt is bar (Some c) s os cs else None))"
| "mt (Open n # is) bar p s os cs = mt is bar p s ((n, s) # os) cs"
| "mt (Close n # is) bar p s os cs = mt is bar p s os ((n, group_text os n s) # cs)"
| "mt (Look body # is) bar p s os cs =
     (case mt body None p s os cs of
        None \<Rightarrow> None
      | Some (_, cs') \<Rightarrow> mt is bar p s os cs')"
| "mt (WordB # is) bar p s os cs =
     (if word_before p \<noteq> word_after s then mt is bar p s os cs else None)"
| "mt (Bol # is) bar p s os cs = (if p = None then mt is bar p s os cs else None)"
| "mt (Eol # is) bar p s os cs =
     (if s = [] \<or> s = [CHR 0x0A] then mt is bar p s os cs else None)"


subsection \<open>Compiling a pattern string\<close>

text \<open>The ways in which compiling can fail. All but the last are \<^verbatim>\<open>re.error\<close>.\<close>

datatype re_error =
    UnbalancedParenthesis
  | MissingParenthesis
  | NothingToRepeat
  | MultipleRepeat
  | UnterminatedSet
  | BadEscapeEnd
  | InvalidGroupReference
  | Unsupported

text \<open>An escape inside a character set.\<close>

definition class_escape :: "char \<Rightarrow> re_error + citem" where
  "class_escape e =
     (if e = CHR ''s'' then Inr CSpace
      else if e = CHR ''w'' then Inr CWord
      else if e = CHR ''d'' then Inr CDigit
      else if is_alnum_ascii e then Inl Unsupported
      else Inr (CLit e))"

text \<open>The members of a set up to its closing bracket, which only closes a set that
  already has a member. Ranges are outside the fragment.\<close>

fun parse_set :: "citem list \<Rightarrow> string \<Rightarrow> re_error + (citem list \<times> string)" where
  "parse_set acc [] = Inl UnterminatedSet"
| "parse_set acc (c # s) =
     (if c = CHR '']'' \<and> acc \<noteq> [] then Inr (acc, s)
      else if c = CHR ''-'' then Inl Unsupported
      else if c = CHR 0x5C then
        (case s of
           [] \<Rightarrow> Inl BadEscapeEnd
         | e # s' \<Rightarrow>
             (case class_escape e of
                Inl err \<Rightarrow> Inl err
              | Inr it \<Rightarrow> parse_set (acc @ [it]) s'))
      else parse_set (acc @ [CLit c]) s)"

text \<open>An escape outside a set.\<close>

definition escape :: "char \<Rightarrow> re_error + instr" where
  "escape e =
     (if e = CHR ''b'' then Inr WordB
      else if e = CHR ''s'' then Inr (Atom (Cls False [CSpace]))
      else if e = CHR ''w'' then Inr (Atom (Cls False [CWord]))
      else if e = CHR ''d'' then Inr (Atom (Cls False [CDigit]))
      else if is_alnum_ascii e then Inl Unsupported
      else Inr (Atom (Lit e)))"

text \<open>The repeat characters act on the item parsed last.\<close>

fun star_item :: "instr \<Rightarrow> re_error + instr list" where
  "star_item (Atom a) = Inr [Rep a True]"
| "star_item (Rep a g) = Inl MultipleRepeat"
| "star_item (Opt a g) = Inl MultipleRepeat"
| "star_item WordB = Inl NothingToRepeat"
| "star_item Bol = Inl NothingToRepeat"
| "star_item Eol = Inl NothingToRepeat"
| "star_item i = Inl Unsupported"

fun plus_item :: "instr \<Rightarrow> re_error + instr list" where
  "plus_item (Atom a) = Inr [Atom a, Rep a True]"
| "plus_item WordB = Inl NothingToRepeat"
| "plus_item Bol = Inl NothingToRepeat"
| "plus_item Eol = Inl NothingToRepeat"
| "plus_item i = Inl Unsupported"

fun quest_item :: "instr \<Rightarrow> re_error + instr list" where
  "quest_item (Atom a) = Inr [Opt a True]"
| "quest_item (Rep a g) = (if g then Inr [Rep a False] else Inl MultipleRepeat)"
| "quest_item (Opt a g) = (if g then Inr [Opt a False] else Inl MultipleRepeat)"
| "quest_item WordB = Inl NothingToRepeat"
| "quest_item Bol = Inl NothingToRepeat"
| "quest_item Eol = Inl NothingToRepeat"
| "quest_item i = Inl Unsupported"

definition on_last :: "(instr \<Rightarrow> re_error + instr list) \<Rightarrow> instr list \<Rightarrow> re_error + instr list" where
  "on_last f acc =
     (if acc = [] then Inl NothingToRepeat
      else (case f (last acc) of
              Inl err \<Rightarrow> Inl err
            | Inr items \<Rightarrow> Inr (butlast acc @ items)))"

text \<open>A parenthesis that is still open, with the items parsed before it.\<close>

datatype frame = FGroup nat "instr list" | FLook "instr list"

lemma parse_set_shorter: "parse_set acc s = Inr (items, r) \<Longrightarrow> length r < length s"
proof (induction acc s rule: parse_set.induct)
  case (1 acc)
  then show ?case by simp
next
  case (2 acc c s)
  show ?case
  proof (cases "c = CHR '']'' \<and> acc \<noteq> []")
    case True
    with "2.prems" show ?thesis by auto
  next
    case False
    note not_close = this
    show ?thesis
    proof (cases "c = CHR 0x5C")
      case True
      with not_close "2.prems" obtain e s' it where
        s: "s = e # s'" and e: "class_escape e = Inr it"
        and rec: "parse_set (acc @ [it]) s' = Inr (items, r)"
        by (auto split: if_splits list.splits sum.splits)
      from "2.IH"(1) [OF not_close _ True s e rec] True
      have "length r < length s'" by (auto split: if_splits)
      with s show ?thesis by simp
    next
      case False
      with not_close "2.prems" have dash: "c \<noteq> CHR ''-''"
        and rec: "parse_set (acc @ [CLit c]) s = Inr (items, r)"
        by (auto split: if_splits)
      from "2.IH"(2) [OF not_close dash False rec] show ?thesis by simp
    qed
  qed
qed

text \<open>
  \<open>parse n st acc s\<close> reads the rest \<open>s\<close> of a pattern: \<open>n\<close> groups have been opened
  so far, \<open>st\<close> holds the open parentheses, \<open>acc\<close> the items of the innermost one.
  The answer is the number of groups and the instructions.
\<close>

function parse :: "nat \<Rightarrow> frame list \<Rightarrow> instr list \<Rightarrow> string \<Rightarrow> re_error + (nat \<times> instr list)" where
  "parse n st acc [] = (if st = [] then Inr (n, acc) else Inl MissingParenthesis)"
| "parse n st acc (c # s) =
     (if c = CHR 0x5C then
        (case s of
           [] \<Rightarrow> Inl BadEscapeEnd
         | e # s' \<Rightarrow>
             (case escape e of
                Inl err \<Rightarrow> Inl err
              | Inr i \<Rightarrow> parse n st (acc @ [i]) s'))
      else if c = CHR ''['' then
        (case s of
           [] \<Rightarrow> Inl UnterminatedSet
         | d # s' \<Rightarrow>
             (if d = CHR ''^'' then
                (case parse_set [] s' of
                   Inl err \<Rightarrow> Inl err
                 | Inr (items, r) \<Rightarrow> parse n st (acc @ [Atom (Cls True items)]) r)
              else
                (case parse_set [] (d # s') of
                   Inl err \<Rightarrow> Inl err
                 | Inr (items, r) \<Rightarrow> parse n st (acc @ [Atom (Cls False items)]) r)))
      else if c = CHR ''('' then
        (case s of
           [] \<Rightarrow> Inl MissingParenthesis
         | d # s' \<Rightarrow>
             (if d = CHR ''?'' then
                (case s' of
                   [] \<Rightarrow> Inl Unsupported
                 | e # s'' \<Rightarrow>
                     (if e = CHR ''='' then parse n (FLook acc # st) [] s''
                      else Inl Unsupported))
              else parse (Suc n) (FGroup (Suc n) acc # st) [] (d # s')))
      else if c = CHR '')'' then
        (case st of
           [] \<Rightarrow> Inl UnbalancedParenthesis
         | FGroup k saved # st' \<Rightarrow> parse n st' (saved @ [Open k] @ acc @ [Close k]) s
         | FLook saved # st' \<Rightarrow> parse n st' (saved @ [Look acc]) s)
      else if c = CHR ''*'' then
        (case on_last star_item acc of Inl err \<Rightarrow> Inl err | Inr acc' \<Rightarrow> parse n st acc' s)
      else if c = CHR ''+'' then
        (case on_last plus_item acc of Inl err \<Rightarrow> Inl err | Inr acc' \<Rightarrow> parse n st acc' s)
      else if c = CHR ''?'' then
        (case on_last quest_item acc of Inl err \<Rightarrow> Inl err | Inr acc' \<Rightarrow> parse n st acc' s)
      else if c = CHR ''.'' then parse n st (acc @ [Atom Dot]) s
      else if c = CHR ''^'' then parse n st (acc @ [Bol]) s
      else if c = CHR ''$'' then parse n st (acc @ [Eol]) s
      else if c = CHR ''|'' \<or> c = CHR ''{'' then Inl Unsupported
      else parse n st (acc @ [Atom (Lit c)]) s)"
  by pat_completeness auto
termination
  by (relation "measure (\<lambda>(n, st, acc, s). length s)")
     (auto simp del: parse_set.simps dest: parse_set_shorter)

definition re_compile :: "string \<Rightarrow> re_error + (nat \<times> instr list)" where
  "re_compile pat = parse 0 [] [] pat"

subsection \<open>Searching\<close>

text \<open>\<^verbatim>\<open>re.search\<close> tries every start, leftmost first, the end of the text included.\<close>

fun search_from :: "instr list \<Rightarrow> char option \<Rightarrow> string \<Rightarrow> bool" where
  "search_from prog p [] = (mt prog None p [] [] [] \<noteq> None)"
| "search_from prog p (c # s) =
     (case mt prog None p (c # s) [] [] of
        Some r \<Rightarrow> True
      | None \<Rightarrow> search_from prog (Some c) s)"

definition re_search :: "string \<Rightarrow> string \<Rightarrow> re_error + bool" where
  "re_search pat s =
     (case re_compile pat of
        Inl err \<Rightarrow> Inl err
      | Inr (n, prog) \<Rightarrow> Inr (search_from prog None s))"

subsection \<open>Substituting\<close>

text \<open>
  The replacement handed to \<^verbatim>\<open>re.sub\<close> is a template string, in which
  \<^verbatim>\<open>\1\<close> to \<^verbatim>\<open>\9\<close> stand for a group, or a callable. The only callable of
  the script, written out at six rules, is
  \<^verbatim>\<open>lambda m: m.group(0).replace('any', 'unknown')\<close>.
\<close>

datatype repl = Template string | ReplaceAny

datatype titem = TLit char | TGroup nat

fun parse_template :: "nat \<Rightarrow> string \<Rightarrow> re_error + titem list" where
  "parse_template g [] = Inr []"
| "parse_template g [c] = (if c = CHR 0x5C then Inl BadEscapeEnd else Inr [TLit c])"
| "parse_template g (c # e # s) =
     (if c \<noteq> CHR 0x5C then
        (case parse_template g (e # s) of
           Inl err \<Rightarrow> Inl err
         | Inr items \<Rightarrow> Inr (TLit c # items))
      else if e = CHR 0x5C then
        (case parse_template g s of
           Inl err \<Rightarrow> Inl err
         | Inr items \<Rightarrow> Inr (TLit e # items))
      else if is_digit e then
        (if e = CHR ''0'' \<or> (case s of [] \<Rightarrow> False | d # _ \<Rightarrow> is_digit d) then Inl Unsupported
         else if code e - 48 \<le> g then
           (case parse_template g s of
              Inl err \<Rightarrow> Inl err
            | Inr items \<Rightarrow> Inr (TGroup (code e - 48) # items))
         else Inl InvalidGroupReference)
      else if is_alnum_ascii e then Inl Unsupported
      else
        (case parse_template g s of
           Inl err \<Rightarrow> Inl err
         | Inr items \<Rightarrow> Inr (TLit c # TLit e # items)))"

text \<open>\<^verbatim>\<open>str.replace(old, new)\<close> for a non-empty \<open>old\<close>: left to right, without
  overlap.\<close>

function py_replace :: "string \<Rightarrow> string \<Rightarrow> string \<Rightarrow> string" where
  "py_replace old new [] = []"
| "py_replace old new (c # s) =
     (if old \<noteq> [] \<and> take (length old) (c # s) = old
      then new @ py_replace old new (drop (length old) (c # s))
      else c # py_replace old new s)"
  by pat_completeness auto
termination
  by (relation "measure (\<lambda>(old, new, s). length s)") auto

datatype crepl = CTemplate "titem list" | CReplaceAny

definition compile_repl :: "nat \<Rightarrow> repl \<Rightarrow> re_error + crepl" where
  "compile_repl g rp =
     (case rp of
        ReplaceAny \<Rightarrow> Inr CReplaceAny
      | Template t \<Rightarrow>
          (case parse_template g t of
             Inl err \<Rightarrow> Inl err
           | Inr items \<Rightarrow> Inr (CTemplate items)))"

fun expand :: "titem list \<Rightarrow> caps \<Rightarrow> string" where
  "expand [] cs = []"
| "expand (TLit c # items) cs = c # expand items cs"
| "expand (TGroup k # items) cs =
     (case map_of cs k of None \<Rightarrow> [] | Some g \<Rightarrow> g) @ expand items cs"

text \<open>The text that replaces the match \<open>m\<close>, whose groups are \<open>cs\<close>.\<close>

fun apply_repl :: "crepl \<Rightarrow> string \<Rightarrow> caps \<Rightarrow> string" where
  "apply_repl (CTemplate items) m cs = expand items cs"
| "apply_repl CReplaceAny m cs = py_replace ''any'' ''unknown'' m"

text \<open>
  \<^verbatim>\<open>re.sub\<close> replaces the matches found from left to right, each search starting
  where the last match ended. After an empty match (\<open>adv\<close>) the next match at the same
  place has to advance; failing that, one character is copied.
\<close>

function sub_loop :: "instr list \<Rightarrow> crepl \<Rightarrow> bool \<Rightarrow> char option \<Rightarrow> string \<Rightarrow> string" where
  "sub_loop prog f adv p s =
     (case mt prog (if adv then Some (length s) else None) p s [] [] of
        None \<Rightarrow> (case s of [] \<Rightarrow> [] | c # s' \<Rightarrow> c # sub_loop prog f False (Some c) s')
      | Some (rest, cs) \<Rightarrow>
          (if length rest < length s then
             apply_repl f (take (length s - length rest) s) cs
               @ sub_loop prog f False (Some (last (take (length s - length rest) s))) rest
           else if \<not> adv then apply_repl f [] cs @ sub_loop prog f True p s
           else (case s of [] \<Rightarrow> [] | c # s' \<Rightarrow> c # sub_loop prog f False (Some c) s')))"
  by pat_completeness auto
termination
  by (relation "measures [\<lambda>(prog, f, adv, p, s). length s,
                          \<lambda>(prog, f, adv, p, s). if adv then 0 else 1]") auto

declare sub_loop.simps [simp del]

definition re_sub :: "string \<Rightarrow> repl \<Rightarrow> string \<Rightarrow> re_error + string" where
  "re_sub pat rp s =
     (case re_compile pat of
        Inl err \<Rightarrow> Inl err
      | Inr (n, prog) \<Rightarrow>
          (case compile_repl n rp of
             Inl err \<Rightarrow> Inl err
           | Inr f \<Rightarrow> Inr (sub_loop prog f False None s)))"

section \<open>The replacer of \<^verbatim>\<open>scripts/fix-any-types.py\<close>\<close>

text \<open>A string literal cannot hold a backslash, so the patterns of the source are
  written with \<open>BS\<close> where the source has one: \<^verbatim>\<open>r'\.d\.ts$'\<close> is
  \<open>BS # ''.d'' @ BS # ''.ts$''\<close>.\<close>

abbreviation (input) BS :: char where
  "BS \<equiv> CHR 0x5C"

abbreviation (input) LF :: char where
  "LF \<equiv> CHR 0x0A"

abbreviation (input) CR :: char where
  "CR \<equiv> CHR 0x0D"

subsection \<open>State, exceptions, output\<close>

type_synonym rule = "string \<times> repl"

text \<open>The fields that \<^verbatim>\<open>__init__\<close> sets.\<close>

record replacer =
  dry_run :: bool
  changes_made :: nat
  files_processed :: nat
  replacements :: "rule list"
  context_replacements :: "(string \<times> rule list) list"
  exclude_patterns :: "string list"
  preserve_patterns :: "string list"

text \<open>The exceptions that travel through the script: \<^verbatim>\<open>re.error\<close>, with the
  pattern that did not compile, and the interrupt of the user.\<close>

datatype exn = RegexError string re_error | KeyboardInterrupt

text \<open>One constructor for each \<^verbatim>\<open>print\<close> of the script, with the values it
  formats.\<close>

datatype event =
    WarnRegex string re_error
  | WarnRead string
  | LineChange nat string string
  | DryRunWouldModify string nat
  | Modified string nat
  | Found nat
  | DryRunBanner
  | Summary nat nat nat
  | DryRunHint
  | Cancelled
  | ErrorMsg exn

subsection \<open>The tables of \<^verbatim>\<open>__init__\<close>\<close>

definition builtin_replacements :: "rule list" where
  "builtin_replacements =
     [(BS # ''(value: any'' @ BS # '')'', Template (''(value: unknown)'')),
      (''=> any'' @ BS # ''b'', Template (''=> unknown'')),
      ('': any'' @ BS # ''['' @ BS # '']'', Template ('': unknown[]'')),
      ('': any'' @ BS # ''s*='', Template ('': unknown ='')),
      (''Record<string, any>'', Template (''Record<string, unknown>'')),
      (''Record<'' @ BS # ''w+, any>'', ReplaceAny),
      (''<T extends any>'', Template (''<T>'')),
      (''<T = any>'', Template (''<T = unknown>'')),
      (''Array<any>'', Template (''Array<unknown>'')),
      (''any'' @ BS # ''['' @ BS # '']'', Template (''unknown[]'')),
      (BS # ''(.*?: any'' @ BS # '') => any'', ReplaceAny),
      (''const '' @ BS # ''w+: any'' @ BS # ''b'', ReplaceAny),
      (''let '' @ BS # ''w+: any'' @ BS # ''b'', ReplaceAny),
      (''var '' @ BS # ''w+: any'' @ BS # ''b'', ReplaceAny),
      ('':'' @ BS # ''s*any(?='' @ BS # ''s*[;,}])'', Template ('': unknown'')),
      (''as any(?='' @ BS # ''s*[;,.'' @ BS # '')]))'', Template (''as unknown''))]"

definition builtin_context_replacements :: "(string \<times> rule list) list" where
  "builtin_context_replacements =
     [(''validator'',
        [(BS # ''(v: any'' @ BS # '')'', Template (''(v: unknown)'')),
         (BS # ''(value: any'' @ BS # '')'', Template (''(value: unknown)''))]),
      (''error_handler'',
        [(''catch '' @ BS # ''(('' @ BS # ''w+): any'' @ BS # '')'', Template (''catch ('' @ BS # ''1: unknown)'')),
         (''error: any'', Template (''error: unknown''))]),
      (''api_response'',
        [(''response: any'', Template (''response: unknown'')),
         (''data: any'', Template (''data: unknown''))]),
      (''test_file'',
        [(''expect'' @ BS # ''(.*?: any'' @ BS # '')'', ReplaceAny)])]"

definition builtin_exclude_patterns :: "string list" where
  "builtin_exclude_patterns =
     [BS # ''.d'' @ BS # ''.ts$'',
      ''node_modules/'',
      BS # ''.git/'',
      ''dist/'',
      ''build/'']"

definition builtin_preserve_patterns :: "string list" where
  "builtin_preserve_patterns =
     [''// @ts-ignore.*any'',
      ''// eslint-disable.*any'',
      ''JSON'' @ BS # ''.parse'' @ BS # ''(.*'' @ BS # ''): any'',
      ''window'' @ BS # ''.'' @ BS # ''w+.*: any'']"

definition init :: "bool \<Rightarrow> replacer" where
  "init d =
     \<lparr>dry_run = d, changes_made = 0, files_processed = 0,
      replacements = builtin_replacements,
      context_replacements = builtin_context_replacements,
      exclude_patterns = builtin_exclude_patterns,
      preserve_patterns = builtin_preserve_patterns\<rparr>"

subsection \<open>\<^verbatim>\<open>should_exclude_file\<close>, \<^verbatim>\<open>should_preserve_line\<close>\<close>

text \<open>Both are the same loop: the first pattern found in the text answers
  \<^verbatim>\<open>True\<close>; a pattern that does not compile raises when its turn comes.\<close>

fun any_search :: "string list \<Rightarrow> string \<Rightarrow> exn + bool" where
  "any_search [] text = Inr False"
| "any_search (pattern # ps) text =
     (case re_search pattern text of
        Inl err \<Rightarrow> Inl (RegexError pattern err)
      | Inr found \<Rightarrow> (if found then Inr True else any_search ps text))"

definition should_exclude_file :: "replacer \<Rightarrow> string \<Rightarrow> exn + bool" where
  "should_exclude_file r file_path = any_search (exclude_patterns r) file_path"

definition should_preserve_line :: "replacer \<Rightarrow> string \<Rightarrow> exn + bool" where
  "should_preserve_line r line = any_search (preserve_patterns r) line"

subsection \<open>\<^verbatim>\<open>get_file_context\<close>\<close>

text \<open>\<^verbatim>\<open>str.lower\<close> on code points below 256.\<close>

definition lower_char :: "char \<Rightarrow> char" where
  "lower_char c = (let n = code c in
     if (65 \<le> n \<and> n \<le> 90) \<or> (192 \<le> n \<and> n \<le> 214) \<or> (216 \<le> n \<and> n \<le> 222)
     then char_of (n + 32) else c)"

definition lower :: "string \<Rightarrow> string" where
  "lower s = map lower_char s"

text \<open>\<^verbatim>\<open>sub in s\<close>.\<close>

fun is_in :: "string \<Rightarrow> string \<Rightarrow> bool" where
  "is_in sub [] = (sub = [])"
| "is_in sub (c # s) = (take (length sub) (c # s) = sub \<or> is_in sub s)"

definition get_file_context :: "string \<Rightarrow> string" where
  "get_file_context file_path = (let path_lower = lower file_path in
     if is_in ''test'' path_lower \<or> is_in ''spec'' path_lower then ''test_file''
     else if is_in ''validator'' path_lower \<or> is_in ''validation'' path_lower then ''validator''
     else if is_in ''api'' path_lower \<and> (is_in ''client'' path_lower \<or> is_in ''response'' path_lower)
       then ''api_response''
     else if is_in ''error'' path_lower \<or> is_in ''exception'' path_lower then ''error_handler''
     else ''general'')"

subsection \<open>\<^verbatim>\<open>process_line\<close>\<close>

text \<open>The loop over the rules of the context has no handler: a \<^verbatim>\<open>re.error\<close>
  leaves \<^verbatim>\<open>process_line\<close>.\<close>

fun apply_context_rules :: "rule list \<Rightarrow> string \<Rightarrow> nat \<Rightarrow> exn + (string \<times> nat)" where
  "apply_context_rules [] line changes = Inr (line, changes)"
| "apply_context_rules ((pattern, replacement) # rules) line changes =
     (case re_sub pattern replacement line of
        Inl err \<Rightarrow> Inl (RegexError pattern err)
      | Inr new_line \<Rightarrow>
          (if new_line \<noteq> line then apply_context_rules rules new_line (changes + 1)
           else apply_context_rules rules line changes))"

text \<open>The loop over the general rules catches \<^verbatim>\<open>re.error\<close>, prints a warning
  and goes on with the next rule.\<close>

fun apply_general_rules :: "rule list \<Rightarrow> string \<Rightarrow> nat \<Rightarrow> event list
    \<Rightarrow> (string \<times> nat) \<times> event list" where
  "apply_general_rules [] line changes out = ((line, changes), out)"
| "apply_general_rules ((pattern, replacement) # rules) line changes out =
     (case re_sub pattern replacement line of
        Inl err \<Rightarrow> apply_general_rules rules line changes (out @ [WarnRegex pattern err])
      | Inr new_line \<Rightarrow>
          (if new_line \<noteq> line then apply_general_rules rules new_line (changes + 1) out
           else apply_general_rules rules line changes out))"

text \<open>The result is what is returned or raised, and what was printed on the way.\<close>

definition process_line :: "replacer \<Rightarrow> string \<Rightarrow> string \<Rightarrow> (exn + (string \<times> nat)) \<times> event list" where
  "process_line r line file_context =
     (case should_preserve_line r line of
        Inl e \<Rightarrow> (Inl e, [])
      | Inr preserve \<Rightarrow>
          (if preserve then (Inr (line, 0), [])
           else
             (case (case map_of (context_replacements r) file_context of
                      None \<Rightarrow> Inr (line, 0)
                    | Some rules \<Rightarrow> apply_context_rules rules line 0) of
                Inl e \<Rightarrow> (Inl e, [])
              | Inr (line', changes) \<Rightarrow>
                  (case apply_general_rules (replacements r) line' changes [] of
                     (res, out) \<Rightarrow> (Inr res, out)))))"

subsection \<open>Files on disk\<close>

text \<open>
  What \<^verbatim>\<open>open(file_path, 'r', encoding='utf-8')\<close> finds at a path: nothing that can
  be opened (\<^verbatim>\<open>IOError\<close>), bytes that are not UTF-8 (\<^verbatim>\<open>UnicodeDecodeError\<close>), or
  text. Writing is modelled as it goes on a POSIX system when it succeeds: the file holds
  the lines written, one after the other.
\<close>

datatype fcontent = Text string | Undecodable

type_synonym disk = "string \<Rightarrow> fcontent option"

text \<open>Reading in text mode turns \<^verbatim>\<open>\r\n\<close> and \<^verbatim>\<open>\r\<close> into \<^verbatim>\<open>\n\<close>;
  \<^verbatim>\<open>readlines\<close> cuts after each \<^verbatim>\<open>\n\<close> and keeps it.\<close>

fun universal_newlines :: "string \<Rightarrow> string" where
  "universal_newlines [] = []"
| "universal_newlines [c] = (if c = CR then [LF] else [c])"
| "universal_newlines (c # d # s) =
     (if c = CR then (if d = LF then LF # universal_newlines s else LF # universal_newlines (d # s))
      else c # universal_newlines (d # s))"

fun readlines :: "string \<Rightarrow> string list" where
  "readlines [] = []"
| "readlines (c # s) =
     (if c = LF then [LF] # readlines s
      else (case readlines s of [] \<Rightarrow> [[c]] | l # ls \<Rightarrow> (c # l) # ls))"

definition read_file :: "disk \<Rightarrow> string \<Rightarrow> string list option" where
  "read_file dk file_path =
     (case dk file_path of
        None \<Rightarrow> None
      | Some Undecodable \<Rightarrow> None
      | Some (Text s) \<Rightarrow> Some (readlines (universal_newlines s)))"

definition write_file :: "disk \<Rightarrow> string \<Rightarrow> string list \<Rightarrow> disk" where
  "write_file dk file_path lines = dk(file_path \<mapsto> Text (concat lines))"

subsection \<open>\<^verbatim>\<open>process_file\<close>\<close>

text \<open>\<^verbatim>\<open>str.strip\<close>.\<close>

definition strip :: "string \<Rightarrow> string" where
  "strip s = rev (dropWhile is_space (rev (dropWhile is_space s)))"

text \<open>The loop over the lines, numbered from \<open>line_num\<close>.\<close>

fun process_lines :: "replacer \<Rightarrow> string \<Rightarrow> nat \<Rightarrow> string list
    \<Rightarrow> (exn + (string list \<times> nat)) \<times> event list" where
  "process_lines r file_context line_num [] = (Inr ([], 0), [])"
| "process_lines r file_context line_num (line # lines) =
     (case process_line r line file_context of
        (Inl e, out) \<Rightarrow> (Inl e, out)
      | (Inr (modified_line, line_changes), out) \<Rightarrow>
          (case process_lines r file_context (line_num + 1) lines of
             (Inl e, out') \<Rightarrow>
               (Inl e,
                out @ (if line_changes > 0 \<and> \<not> dry_run r
                       then [LineChange line_num (strip line) (strip modified_line)] else [])
                    @ out')
           | (Inr (modified_lines, file_changes), out') \<Rightarrow>
               (Inr (modified_line # modified_lines, line_changes + file_changes),
                out @ (if line_changes > 0 \<and> \<not> dry_run r
                       then [LineChange line_num (strip line) (strip modified_line)] else [])
                    @ out')))"

text \<open>The result, the replacer with its counters, the disk, and what was printed.\<close>

definition process_file :: "replacer \<Rightarrow> disk \<Rightarrow> string
    \<Rightarrow> (exn + bool) \<times> replacer \<times> disk \<times> event list" where
  "process_file r dk file_path =
     (case should_exclude_file r file_path of
        Inl e \<Rightarrow> (Inl e, r, dk, [])
      | Inr excluded \<Rightarrow>
          (if excluded then (Inr False, r, dk, [])
           else
             (case read_file dk file_path of
                None \<Rightarrow> (Inr False, r, dk, [WarnRead file_path])
              | Some lines \<Rightarrow>
                  (case process_lines r (get_file_context file_path) 1 lines of
                     (Inl e, out) \<Rightarrow> (Inl e, r, dk, out)
                   | (Inr (modified_lines, file_changes), out) \<Rightarrow>
                       (if file_changes > 0 then
                          (if dry_run r then
                             (Inr True, r\<lparr>changes_made := changes_made r + file_changes\<rparr>, dk,
                              out @ [DryRunWouldModify file_path file_changes])
                           else
                             (Inr True, r\<lparr>changes_made := changes_made r + file_changes\<rparr>,
                              write_file dk file_path modified_lines,
                              out @ [Modified file_path file_changes]))
                        else (Inr False, r, dk, out))))))"

subsection \<open>\<^verbatim>\<open>find_typescript_files\<close>\<close>













subsection \<open>\<^verbatim>\<open>run\<close>\<close>


text \<open>
  The second loop, over the files in the order of the list. The interrupt of the user
  is an input of the model: \<open>irq = Some k\<close> delivers it when \<open>k\<close> more files have been
  processed, \<open>None\<close> never. The answer to a completed loop is \<open>files_modified\<close>.
\<close>

fun run_files :: "nat option \<Rightarrow> replacer \<Rightarrow> disk \<Rightarrow> nat \<Rightarrow> string list
    \<Rightarrow> (exn + nat) \<times> replacer \<times> disk \<times> event list" where
  "run_files irq r dk files_modified [] = (Inr files_modified, r, dk, [])"
| "run_files irq r dk files_modified (file_path # files) =
     (if irq = Some 0 then (Inl KeyboardInterrupt, r, dk, [])
      else
        (case process_file (r\<lparr>files_processed := files_processed r + 1\<rparr>) dk file_path of
           (Inl e, r', dk', out) \<Rightarrow> (Inl e, r', dk', out)
         | (Inr modified, r', dk', out) \<Rightarrow>
             (case run_files (map_option (\<lambda>k. k - 1) irq) r' dk'
                     (if modified then files_modified + 1 else files_modified) files of
                (res, r'', dk'', out') \<Rightarrow> (res, r'', dk'', out @ out'))))"


subsection \<open>\<^verbatim>\<open>main\<close>\<close>



section \<open>Notions used to state the properties\<close>

subsection \<open>Rules one at a time\<close>

text \<open>Whether \<^verbatim>\<open>re.sub\<close> raises depends on the rule alone, not on the text: the
  pattern is compiled, then the template, before anything is searched.\<close>

definition rule_error :: "rule \<Rightarrow> re_error option" where
  "rule_error rl =
     (case re_compile (fst rl) of
        Inl e \<Rightarrow> Some e
      | Inr (n, prog) \<Rightarrow>
          (case compile_repl n (snd rl) of Inl e \<Rightarrow> Some e | Inr f \<Rightarrow> None))"

text \<open>What one application of a rule makes of a text: the substituted text, or the
  text itself when the rule raises.\<close>

definition rule_step :: "rule \<Rightarrow> string \<Rightarrow> string" where
  "rule_step rl s = (case re_sub (fst rl) (snd rl) s of Inl e \<Rightarrow> s | Inr t \<Rightarrow> t)"

text \<open>The number of rule applications, along a list of rules applied one after the
  other, whose substitution changed the text it was given.\<close>

fun changes_of :: "rule list \<Rightarrow> string \<Rightarrow> nat" where
  "changes_of [] s = 0"
| "changes_of (rl # rules) s =
     (if rule_step rl s \<noteq> s then 1 else 0) + changes_of rules (rule_step rl s)"

text \<open>The warnings about the rules of a list that raise, in the order of the list.\<close>

fun warnings_of :: "rule list \<Rightarrow> event list" where
  "warnings_of [] = []"
| "warnings_of (rl # rules) =
     (case rule_error rl of None \<Rightarrow> [] | Some e \<Rightarrow> [WarnRegex (fst rl) e]) @ warnings_of rules"

text \<open>The rules that \<^verbatim>\<open>process_line\<close> goes through for a context: those of the
  context, if it has any, then the general ones.\<close>

definition applied_rules :: "replacer \<Rightarrow> string \<Rightarrow> rule list" where
  "applied_rules r file_context =
     (case map_of (context_replacements r) file_context of None \<Rightarrow> [] | Some rules \<Rightarrow> rules)
     @ replacements r"

text \<open>The pattern of the last general rule.\<close>

abbreviation (input) as_any_pattern :: string where
  "as_any_pattern \<equiv> ''as any(?='' @ BS # ''s*[;,.'' @ BS # '')]))''"

subsection \<open>Patterns that need the text \<^verbatim>\<open>any\<close>\<close>





subsection \<open>Classifying a path, in the words of the specification\<close>



subsection \<open>What the line processor computes for the lines of a file\<close>





subsection \<open>Directories that the walk leaves out\<close>




subsection \<open>The candidates of one root\<close>



subsection \<open>The replacer that \<^verbatim>\<open>main\<close> runs\<close>



section \<open>Properties of the line processor\<close>

subsection \<open>The two loops over the rules\<close>

lemma re_sub_Inl: "re_sub pat rp s = Inl e \<longleftrightarrow> rule_error (pat, rp) = Some e"
  by (auto simp: re_sub_def rule_error_def split: sum.splits prod.splits)

lemma re_sub_Inr: "re_sub pat rp s = Inr t \<Longrightarrow> rule_error (pat, rp) = None"
  by (auto simp: re_sub_def rule_error_def split: sum.splits prod.splits)

lemma re_sub_total: "rule_error (pat, rp) = None \<Longrightarrow> \<exists>t. re_sub pat rp s = Inr t"
  by (auto simp: re_sub_def rule_error_def split: sum.splits prod.splits)

lemma general_rules_spec:
  "apply_general_rules rules line changes out =
     ((fold rule_step rules line, changes + changes_of rules line), out @ warnings_of rules)"
proof (induction rules arbitrary: line changes out)
  case Nil
  show ?case by simp
next
  case (Cons rl rules)
  obtain pat rp where rl: "rl = (pat, rp)" by (cases rl)
  show ?case
  proof (cases "re_sub pat rp line")
    case (Inl e)
    then have "rule_error (pat, rp) = Some e" by (simp add: re_sub_Inl)
    with Inl rl Cons.IH show ?thesis by (simp add: rule_step_def)
  next
    case (Inr t)
    then have "rule_error (pat, rp) = None" by (rule re_sub_Inr)
    with Inr rl Cons.IH show ?thesis by (simp add: rule_step_def)
  qed
qed

lemma context_rules_spec:
  "apply_context_rules rules line changes = Inr (l, n) \<Longrightarrow>
     l = fold rule_step rules line \<and> n = changes + changes_of rules line"
proof (induction rules arbitrary: line changes)
  case Nil
  then show ?case by simp
next
  case (Cons rl rules)
  obtain pat rp where rl: "rl = (pat, rp)" by (cases rl)
  from Cons.prems rl obtain t where t: "re_sub pat rp line = Inr t"
    by (auto split: sum.splits)
  show ?case
  proof (cases "t = line")
    case True
    with Cons.prems rl t have "apply_context_rules rules line changes = Inr (l, n)" by simp
    from Cons.IH [OF this] rl t True show ?thesis by (simp add: rule_step_def)
  next
    case False
    with Cons.prems rl t have "apply_context_rules rules t (changes + 1) = Inr (l, n)" by simp
    from Cons.IH [OF this] rl t False show ?thesis by (simp add: rule_step_def)
  qed
qed

lemma context_rules_total:
  "\<forall>rl \<in> set rules. rule_error rl = None \<Longrightarrow>
     \<exists>res. apply_context_rules rules line changes = Inr res"
proof (induction rules arbitrary: line changes)
  case Nil
  show ?case by simp
next
  case (Cons rl rules)
  obtain pat rp where rl: "rl = (pat, rp)" by (cases rl)
  with Cons.prems have "rule_error (pat, rp) = None" by simp
  from re_sub_total [OF this] obtain t where t: "re_sub pat rp line = Inr t" by blast
  from Cons.prems have "\<forall>rl \<in> set rules. rule_error rl = None" by simp
  from Cons.IH [OF this] have
    "\<exists>res. apply_context_rules rules t (changes + 1) = Inr res"
    "\<exists>res. apply_context_rules rules line changes = Inr res"
    by blast+
  with rl t show ?case by (cases "t = line") auto
qed

lemma changes_of_append:
  "changes_of (xs @ ys) s = changes_of xs s + changes_of ys (fold rule_step xs s)"
  by (induction xs arbitrary: s) auto

lemma process_line_spec:
  assumes "should_preserve_line r line = Inr False"
    and "fst (process_line r line file_context) = Inr (l, n)"
  shows "l = fold rule_step (applied_rules r file_context) line
       \<and> n = changes_of (applied_rules r file_context) line"
proof (cases "map_of (context_replacements r) file_context")
  case None
  with assms show ?thesis
    by (simp add: process_line_def applied_rules_def general_rules_spec)
next
  case (Some rules)
  with assms obtain l1 n1 where c: "apply_context_rules rules line 0 = Inr (l1, n1)"
    by (auto simp: process_line_def split: sum.splits)
  from context_rules_spec [OF c] have l1: "l1 = fold rule_step rules line"
    and n1: "n1 = changes_of rules line" by simp_all
  from assms Some c l1 n1 show ?thesis
    by (simp add: process_line_def applied_rules_def general_rules_spec changes_of_append)
qed

subsection \<open>Facts about the built-in tables\<close>

lemma rule_step_error: "rule_error rl = Some e \<Longrightarrow> rule_step rl s = s"
  by (cases rl) (auto simp: rule_step_def re_sub_def rule_error_def split: sum.splits prod.splits)

lemma changes_of_snoc_error:
  "rule_error rl = Some e \<Longrightarrow> changes_of (rules @ [rl]) s = changes_of rules s"
  by (simp add: changes_of_append rule_step_error)

lemma fold_snoc_error:
  "rule_error rl = Some e \<Longrightarrow> fold rule_step (rules @ [rl]) s = fold rule_step rules s"
  by (simp add: rule_step_error)

lemma builtin_split:
  "builtin_replacements =
     butlast builtin_replacements
       @ [(''as any(?='' @ BS # ''s*[;,.'' @ BS # '')]))'', Template ''as unknown'')]"
  by (simp add: builtin_replacements_def)

lemma as_any_error:
  "rule_error (''as any(?='' @ BS # ''s*[;,.'' @ BS # '')]))'', Template ''as unknown'')
     = Some UnbalancedParenthesis"
  by code_simp

lemma builtin_warnings:
  "warnings_of builtin_replacements
     = [WarnRegex as_any_pattern UnbalancedParenthesis]"
  by code_simp

lemma builtin_butlast_warnings: "warnings_of (butlast builtin_replacements) = []"
  by code_simp

lemma builtin_context_ok:
  "list_all (\<lambda>(k, rules). list_all (\<lambda>rl. rule_error rl = None) rules) builtin_context_replacements"
  by code_simp




lemma builtin_fold_butlast:
  "fold rule_step builtin_replacements s = fold rule_step (butlast builtin_replacements) s"
proof -
  have "fold rule_step
          (butlast builtin_replacements
             @ [(''as any(?='' @ BS # ''s*[;,.'' @ BS # '')]))'', Template ''as unknown'')]) s
        = fold rule_step (butlast builtin_replacements) s"
    by (rule fold_snoc_error [OF as_any_error])
  with builtin_split show ?thesis by simp
qed

lemma builtin_changes_butlast:
  "changes_of builtin_replacements s = changes_of (butlast builtin_replacements) s"
proof -
  have "changes_of
          (butlast builtin_replacements
             @ [(''as any(?='' @ BS # ''s*[;,.'' @ BS # '')]))'', Template ''as unknown'')]) s
        = changes_of (butlast builtin_replacements) s"
    by (rule changes_of_snoc_error [OF as_any_error])
  with builtin_split show ?thesis by simp
qed

lemma builtin_context_total:
  "\<exists>l1 n1. (case map_of builtin_context_replacements file_context of
               None \<Rightarrow> Inr (line, 0)
             | Some rules \<Rightarrow> apply_context_rules rules line 0) = Inr (l1, n1)"
proof (cases "map_of builtin_context_replacements file_context")
  case None
  then show ?thesis by simp
next
  case (Some rules)
  then have "(file_context, rules) \<in> set builtin_context_replacements"
    by (rule map_of_SomeD)
  with builtin_context_ok have "\<forall>rl \<in> set rules. rule_error rl = None"
    by (auto simp: list_all_iff)
  from context_rules_total [OF this, of line 0] Some show ?thesis by auto
qed

subsection \<open>Preserved lines\<close>

text \<open>
  C1. Whatever the replacer's rule sets are and whatever the context label is: when the
  preserve check answers \<^verbatim>\<open>True\<close> for a line, \<^verbatim>\<open>process_line\<close> returns that
  line as it is with a change count of 0, and prints nothing. No rule is tried, so it
  does not matter whether one would have matched.
\<close>

theorem process_line_preserved:
  "should_preserve_line r line = Inr True \<Longrightarrow>
   process_line r line file_context = (Inr (line, 0), [])"
  by (simp add: process_line_def)

text \<open>The line of the witness is rewritten by the fourth general rule as soon as the
  preserve patterns are taken away.\<close>

theorem process_line_preserved_witness:
  "should_preserve_line (init False) ''const x: any = f(); // eslint-disable-line any'' = Inr True
   \<and> process_line (init False) ''const x: any = f(); // eslint-disable-line any'' ''general''
       = (Inr (''const x: any = f(); // eslint-disable-line any'', 0), [])
   \<and> fst (process_line ((init False)\<lparr>preserve_patterns := []\<rparr>)
            ''const x: any = f(); // eslint-disable-line any'' ''general'')
       = Inr (''const x: unknown = f(); // eslint-disable-line any'', 1)"
proof -
  have pre: "should_preserve_line (init False)
      ''const x: any = f(); // eslint-disable-line any'' = Inr True"
    by code_simp
  have other: "fst (process_line ((init False)\<lparr>preserve_patterns := []\<rparr>)
            ''const x: any = f(); // eslint-disable-line any'' ''general'')
       = Inr (''const x: unknown = f(); // eslint-disable-line any'', 1)"
    by code_simp
  from pre process_line_preserved [OF pre, of "''general''"] other
  show ?thesis by blast
qed
subsection \<open>The change count\<close>

text \<open>
  C4. For a line that is not preserved, whatever \<^verbatim>\<open>process_line\<close> returns is the
  text obtained by applying the rules of the context and then the general rules one
  after the other, and the change count is the number of those rule applications whose
  substitution changed the text: one per rule, however many spans of the line the rule
  rewrote. In the general context the line \<^verbatim>\<open>const x: any = foo();\<close> comes back as
  \<^verbatim>\<open>const x: unknown = foo();\<close> with a change count of 1.
\<close>

theorem process_line_change_count:
  "(should_preserve_line r line = Inr False \<longrightarrow>
    fst (process_line r line file_context) = Inr (l, n) \<longrightarrow>
      l = fold rule_step (applied_rules r file_context) line
      \<and> n = changes_of (applied_rules r file_context) line)
   \<and> fst (process_line (init d) ''const x: any = foo();'' ''general'')
       = Inr (''const x: unknown = foo();'', 1)"
proof (intro conjI impI)
  show "fst (process_line (init d) ''const x: any = foo();'' ''general'')
       = Inr (''const x: unknown = foo();'', 1)"
    by code_simp
qed (auto dest: process_line_spec)

text \<open>In the witness the third general rule rewrites two spans of the line and is
  counted once.\<close>

theorem process_line_change_count_witness:
  "should_preserve_line (init False) ''f(a: any[], b: any[])'' = Inr False
   \<and> fst (process_line (init False) ''f(a: any[], b: any[])'' ''general'')
       = Inr (''f(a: unknown[], b: unknown[])'', 1)
   \<and> fold rule_step (applied_rules (init False) ''general'') ''f(a: any[], b: any[])''
       = ''f(a: unknown[], b: unknown[])''
   \<and> changes_of (applied_rules (init False) ''general'') ''f(a: any[], b: any[])'' = 1
   \<and> rule_step ('': any'' @ BS # ''['' @ BS # '']'', Template '': unknown[]'') ''f(a: any[], b: any[])''
       = ''f(a: unknown[], b: unknown[])''"
proof -
  have pres: "should_preserve_line (init False) ''f(a: any[], b: any[])'' = Inr False"
    by code_simp
  have val: "fst (process_line (init False) ''f(a: any[], b: any[])'' ''general'')
       = Inr (''f(a: unknown[], b: unknown[])'', 1)"
    by code_simp
  have one: "rule_step ('': any'' @ BS # ''['' @ BS # '']'', Template '': unknown[]'')
       ''f(a: any[], b: any[])'' = ''f(a: unknown[], b: unknown[])''"
    by code_simp
  from process_line_change_count [of "init False" "''f(a: any[], b: any[])''" "''general''"
      "''f(a: unknown[], b: unknown[])''" 1] pres val
  have "fold rule_step (applied_rules (init False) ''general'') ''f(a: any[], b: any[])''
       = ''f(a: unknown[], b: unknown[])''
     \<and> changes_of (applied_rules (init False) ''general'') ''f(a: any[], b: any[])'' = 1"
    by simp
  with pres val one show ?thesis by simp
qed

subsection \<open>The last general rule\<close>

text \<open>
  C10, as amended. The pattern of the last built-in general rule does not compile: its
  parentheses are unbalanced. So for every line that is not preserved, in every context,
  \<^verbatim>\<open>process_line\<close> returns normally and prints exactly one warning, the one about
  that pattern, and what it returns is what it would return with the rule taken out of
  the list: the rule itself never rewrites anything. (An \<^verbatim>\<open>as any\<close> can still
  become \<^verbatim>\<open>as unknown\<close> inside the match of another rule, whose callable replaces
  every \<^verbatim>\<open>any\<close> of the match: see the counterexample.)
\<close>

theorem as_any_rule_never_applies:
  "re_compile as_any_pattern = Inl UnbalancedParenthesis
   \<and> (should_preserve_line (init d) line = Inr False \<longrightarrow>
        (\<exists>l n.
           process_line (init d) line file_context
             = (Inr (l, n),
                [WarnRegex as_any_pattern UnbalancedParenthesis])
           \<and> process_line ((init d)\<lparr>replacements := butlast builtin_replacements\<rparr>)
               line file_context = (Inr (l, n), [])))"
proof (intro conjI impI)
  show "re_compile as_any_pattern = Inl UnbalancedParenthesis"
    by code_simp
next
  assume pres: "should_preserve_line (init d) line = Inr False"
  then have pres': "should_preserve_line ((init d)\<lparr>replacements := butlast builtin_replacements\<rparr>)
      line = Inr False"
    by (simp add: should_preserve_line_def init_def)
  from builtin_context_total obtain l1 n1 where
    c: "(case map_of builtin_context_replacements file_context of
           None \<Rightarrow> Inr (line, 0)
         | Some rules \<Rightarrow> apply_context_rules rules line 0) = Inr (l1, n1)"
    by blast
  have full: "process_line (init d) line file_context
      = (Inr (fold rule_step builtin_replacements l1, n1 + changes_of builtin_replacements l1),
         warnings_of builtin_replacements)"
    using pres c by (simp add: process_line_def general_rules_spec init_def)
  have cut: "process_line ((init d)\<lparr>replacements := butlast builtin_replacements\<rparr>) line file_context
      = (Inr (fold rule_step (butlast builtin_replacements) l1,
              n1 + changes_of (butlast builtin_replacements) l1),
         warnings_of (butlast builtin_replacements))"
    using pres' c by (simp add: process_line_def general_rules_spec init_def)
  from full cut show "\<exists>l n.
           process_line (init d) line file_context
             = (Inr (l, n),
                [WarnRegex as_any_pattern UnbalancedParenthesis])
           \<and> process_line ((init d)\<lparr>replacements := butlast builtin_replacements\<rparr>)
               line file_context = (Inr (l, n), [])"
    by (simp add: builtin_warnings builtin_butlast_warnings builtin_fold_butlast
        builtin_changes_butlast)
qed

theorem as_any_rule_never_applies_witness:
  "should_preserve_line (init False) ''return x as any;'' = Inr False
   \<and> process_line (init False) ''return x as any;'' ''general''
       = (Inr (''return x as any;'', 0),
          [WarnRegex as_any_pattern UnbalancedParenthesis])
   \<and> process_line ((init False)\<lparr>replacements := butlast builtin_replacements\<rparr>)
         ''return x as any;'' ''general'' = (Inr (''return x as any;'', 0), [])"
proof -
  have pres: "should_preserve_line (init False) ''return x as any;'' = Inr False"
    by code_simp
  have val: "process_line (init False) ''return x as any;'' ''general''
       = (Inr (''return x as any;'', 0),
          [WarnRegex as_any_pattern UnbalancedParenthesis])"
    by code_simp
  from as_any_rule_never_applies [of False "''return x as any;''" "''general''"] pres
  obtain l n where
    a: "process_line (init False) ''return x as any;'' ''general''
          = (Inr (l, n),
             [WarnRegex as_any_pattern UnbalancedParenthesis])"
    and b: "process_line ((init False)\<lparr>replacements := butlast builtin_replacements\<rparr>)
         ''return x as any;'' ''general'' = (Inr (l, n), [])"
    by blast
  from a val have "l = ''return x as any;''" "n = 0" by simp_all
  with b pres val show ?thesis by simp
qed

text \<open>The claim as first stated said that no built-in rule ever turns
  \<^verbatim>\<open>as any\<close> into \<^verbatim>\<open>as unknown\<close>. In a test file the rule of the context does,
  when the cast lies inside an \<^verbatim>\<open>expect(...: any)\<close>.\<close>

theorem as_any_rewritten_counterexample:
  "is_in ''as any'' ''expect(fn(a as any, b: any))''
   \<and> fst (process_line (init False) ''expect(fn(a as any, b: any))'' ''test_file'')
       = Inr (''expect(fn(a as unknown, b: unknown))'', 1)"
  by code_simp

subsection \<open>A rule that does not compile\<close>

text \<open>
  C2. The claim asks that a rule with a malformed pattern be skipped with a warning, in
  the rules of a context as well as in the general rules. The general loop does that;
  the loop over the rules of the context has no handler, and the error leaves
  \<^verbatim>\<open>process_line\<close>. Here the same malformed rule is put first among the rules of the
  context, and then first among the general rules.
\<close>

theorem context_rule_error_aborts:
  "process_line ((init False)\<lparr>context_replacements := [(''validator'', [(''('', Template ''x'')])]\<rparr>)
       ''v: any[]'' ''validator''
     = (Inl (RegexError ''('' MissingParenthesis), [])
   \<and> process_line ((init False)\<lparr>replacements := [(''('', Template ''x''), ('': any'' @ BS # ''['' @ BS # '']'', Template '': unknown[]'')]\<rparr>)
       ''v: any[]'' ''validator''
     = (Inr (''v: unknown[]'', 1), [WarnRegex ''('' MissingParenthesis])"
  by code_simp

subsection \<open>Running the line processor on its own output\<close>

lemma is_in_Cons: "is_in sub s \<Longrightarrow> is_in sub (c # s)"
  by simp


























section \<open>Properties of the context classification\<close>





section \<open>Properties of the file processor\<close>






section \<open>Properties of the file discovery\<close>

subsection \<open>Pruned directories\<close>








subsection \<open>The order of the candidates\<close>







section \<open>Properties of the program as a whole\<close>


lemma run_files_no_interrupt:
  "length files \<le> k \<Longrightarrow> run_files (Some k) r dk m files = run_files None r dk m files"
proof (induction files arbitrary: k r dk m)
  case Nil
  show ?case by simp
next
  case (Cons f files)
  then have "k \<noteq> 0" "length files \<le> k - 1" by auto
  with Cons.IH show ?case by (simp split: prod.splits sum.splits)
qed




end
